theory Spec2Isabelle
  imports Main
begin

section \<open>The game screen of \<^verbatim>\<open>frontend/app/index.tsx\<close>\<close>

text \<open>
  The component \<^verbatim>\<open>JamaicanRacingGame\<close> keeps eleven \<^verbatim>\<open>useState\<close> cells and
  changes them from event handlers, timer callbacks and effects. The model is one record
  for the cells and one function per handler. A handler takes the cells as rendered when
  it is invoked and returns the cells after its writes together with the list of effects
  it performs on the outside world (requests to the backend, timers it schedules).
  What the backend answers is an argument of the handler: \<open>None\<close> stands for a
  \<^verbatim>\<open>fetch\<close> or \<^verbatim>\<open>json()\<close> call that throws, \<open>Some v\<close> for a parsed, well-typed
  answer.

  The counters \<^verbatim>\<open>score\<close> and \<^verbatim>\<open>distance\<close> are JavaScript numbers that only ever
  hold integers here (they start at 0 and move by 1, 10 and 50), so they are \<open>int\<close>;
  \<^verbatim>\<open>Math.floor(distance / 10)\<close> is \<open>distance div 10\<close>, which rounds towards minus
  infinity as \<^verbatim>\<open>Math.floor\<close> does. Every handler is run to completion on the cells
  of the latest render: the writes of one interval callback are applied together, and
  the awaits inside an \<^verbatim>\<open>async\<close> handler are not interleaved with other events.
\<close>

subsection \<open>Game types (lines 25-54)\<close>

record player =
  p_id :: string
  p_name :: string
  p_high_score :: int

record game_session =
  gs_id :: string
  gs_player_id :: string
  gs_track_name :: string
  gs_score :: int
  gs_distance :: int
  gs_character_type :: string

record track =
  t_id :: string
  t_name :: string
  t_display_name :: string
  t_location_type :: string
  t_character_type :: string
  t_difficulty :: string
  t_background_theme :: string

record jamaican_dialogue =
  d_dialogue :: string
  d_translation :: string

datatype mode = Menu | Playing | Paused | GameOver

subsection \<open>Component state (lines 59-72)\<close>

record game =
  gameState :: mode
  currentPlayer :: "player option"
  currentTrack :: "track option"
  availableTracks :: "track list"
  gameSession :: "game_session option"
  score :: int
  distance :: int
  dialogue :: "jamaican_dialogue option"
  isJumping :: bool
  isRunning :: bool
  isInitialized :: bool

definition initial :: game where
  "initial = \<lparr>gameState = Menu, currentPlayer = None, currentTrack = None,
     availableTracks = [], gameSession = None, score = 0, distance = 0,
     dialogue = None, isJumping = False, isRunning = False, isInitialized = False\<rparr>"

subsection \<open>Effects on the outside world\<close>

text \<open>
  One constructor per backend route the component calls, with the fields of the body it
  sends: \<^verbatim>\<open>POST /api/players\<close> (name), \<^verbatim>\<open>GET /api/tracks\<close>,
  \<^verbatim>\<open>POST /api/game-sessions\<close> (player id, track name, character type),
  \<^verbatim>\<open>PUT /api/game-sessions/{id}\<close> (score, distance, time played, completed) and
  \<^verbatim>\<open>POST /api/dialogue\<close> (context, track name, player name).
\<close>

datatype request =
    CreatePlayer string
  | ListTracks
  | CreateSession string string string
  | UpdateSession string int int int bool
  | GetDialogue string string string

datatype effect =
    Fetch request
  | SetTimeout nat

text \<open>What the backend answers to the requests of one handler run.\<close>

record collaborator =
  sessionReply :: "game_session option"
  putOk :: bool
  dialogueReply :: "jamaican_dialogue option"

subsection \<open>Initialization (lines 74-158)\<close>

definition fallbackPlayer :: player where
  "fallbackPlayer = \<lparr>p_id = ''temp'', p_name = ''General Da Jamaican Boy'', p_high_score = 0\<rparr>"

definition fallbackTrack :: track where
  "fallbackTrack = \<lparr>t_id = ''track_001'', t_name = ''jamaica_country'',
     t_display_name = ''Blue Mountain Trail'', t_location_type = ''country'',
     t_character_type = ''on_foot'', t_difficulty = ''easy'',
     t_background_theme = ''rural_mountains''\<rparr>"

definition fallbackDialogue :: jamaican_dialogue where
  "fallbackDialogue = \<lparr>d_dialogue = ''Ready fi run through Jamaica, General?'',
     d_translation = ''Ready to run through Jamaica, General?''\<rparr>"

text \<open>The callback of the 5000 ms timeout (lines 80-104).\<close>

definition initTimeout :: "game \<Rightarrow> game" where
  "initTimeout s =
     (if \<not> isInitialized s
      then s\<lparr>currentPlayer := Some fallbackPlayer,
             availableTracks := [fallbackTrack],
             currentTrack := Some fallbackTrack,
             isInitialized := True\<rparr>
      else s)"

text \<open>The \<^verbatim>\<open>catch\<close> branch of \<^verbatim>\<open>initializeGame\<close> (lines 139-157).\<close>

definition initializeCatch :: "game \<Rightarrow> game" where
  "initializeCatch s =
     s\<lparr>dialogue := Some fallbackDialogue,
       currentPlayer := Some fallbackPlayer,
       availableTracks := [fallbackTrack],
       isInitialized := True\<rparr>"

text \<open>\<^verbatim>\<open>tracks[0]\<close>: \<^verbatim>\<open>undefined\<close> on an empty array, which the cell holds as no track.\<close>

definition firstTrack :: "track list \<Rightarrow> track option" where
  "firstTrack tracks = (case tracks of [] \<Rightarrow> None | t # _ \<Rightarrow> Some t)"

text \<open>\<^verbatim>\<open>track?.name || 'jamaica_country'\<close>: the default also replaces an empty name.\<close>

definition trackNameOr :: "track option \<Rightarrow> string" where
  "trackNameOr t =
     (case t of None \<Rightarrow> ''jamaica_country''
      | Some tr \<Rightarrow> if t_name tr = [] then ''jamaica_country'' else t_name tr)"

definition playerNameOr :: "player option \<Rightarrow> string" where
  "playerNameOr p =
     (case p of None \<Rightarrow> ''General Da Jamaican Boy''
      | Some pl \<Rightarrow> if p_name pl = [] then ''General Da Jamaican Boy'' else p_name pl)"

text \<open>
  \<^verbatim>\<open>initializeGame\<close> (lines 109-158). The three answers are those of the player, track
  and dialogue requests; the writes made before a failing request stay, and the
  \<^verbatim>\<open>catch\<close> branch writes over them.
\<close>

definition initializeGame ::
  "player option \<Rightarrow> track list option \<Rightarrow> jamaican_dialogue option \<Rightarrow> game \<Rightarrow> game \<times> effect list" where
  "initializeGame playerReply tracksReply dlgReply s =
     (let r1 = Fetch (CreatePlayer ''General Da Jamaican Boy'') in
      case playerReply of
        None \<Rightarrow> (initializeCatch s, [r1])
      | Some pl \<Rightarrow>
          (let s1 = s\<lparr>currentPlayer := Some pl\<rparr>; r2 = Fetch ListTracks in
           case tracksReply of
             None \<Rightarrow> (initializeCatch s1, [r1, r2])
           | Some tracks \<Rightarrow>
               (let s2 = s1\<lparr>availableTracks := tracks, currentTrack := firstTrack tracks\<rparr>;
                    r3 = Fetch (GetDialogue ''start'' (trackNameOr (firstTrack tracks))
                                  ''General Da Jamaican Boy'') in
                case dlgReply of
                  None \<Rightarrow> (initializeCatch s2, [r1, r2, r3])
                | Some d \<Rightarrow> (s2\<lparr>dialogue := Some d, isInitialized := True\<rparr>, [r1, r2, r3]))))"

subsection \<open>Handlers (lines 160-256)\<close>

definition startGame :: "collaborator \<Rightarrow> game \<Rightarrow> game \<times> effect list" where
  "startGame c s =
     (case currentPlayer s of
        None \<Rightarrow> (s, [])
      | Some pl \<Rightarrow>
          (case currentTrack s of
             None \<Rightarrow> (s, [])
           | Some tr \<Rightarrow>
               (let req = Fetch (CreateSession (p_id pl) (t_name tr) (t_character_type tr)) in
                case sessionReply c of
                  Some session \<Rightarrow>
                    (s\<lparr>gameSession := Some session, score := 0, distance := 0,
                       gameState := Playing, isRunning := True\<rparr>, [req])
                | None \<Rightarrow>
                    (s\<lparr>gameState := Playing, isRunning := True\<rparr>, [req]))))"

definition jumpCharacter :: "game \<Rightarrow> game \<times> effect list" where
  "jumpCharacter s =
     (if isJumping s \<or> gameState s \<noteq> Playing then (s, [])
      else (s\<lparr>isJumping := True, score := score s + 50\<rparr>, [SetTimeout 600]))"

text \<open>The callback of the 600 ms timer that \<^verbatim>\<open>jumpCharacter\<close> schedules.\<close>

definition jumpTimeout :: "game \<Rightarrow> game" where
  "jumpTimeout s = s\<lparr>isJumping := False\<rparr>"

definition pauseGame :: "game \<Rightarrow> game" where
  "pauseGame s = s\<lparr>gameState := Paused, isRunning := False\<rparr>"

definition resumeGame :: "game \<Rightarrow> game" where
  "resumeGame s = s\<lparr>gameState := Playing, isRunning := True\<rparr>"

definition endGame :: "collaborator \<Rightarrow> game \<Rightarrow> game \<times> effect list" where
  "endGame c s =
     (let s1 = s\<lparr>gameState := GameOver, isRunning := False\<rparr> in
      case gameSession s of
        None \<Rightarrow> (s1, [])
      | Some g \<Rightarrow>
          (let put = Fetch (UpdateSession (gs_id g) (score s) (distance s)
                              (distance s div 10) True) in
           if putOk c then
             (let context = (if score s > 500 then ''victory'' else ''defeat'');
                  post = Fetch (GetDialogue context (trackNameOr (currentTrack s))
                                  (playerNameOr (currentPlayer s))) in
              case dialogueReply c of
                Some d \<Rightarrow> (s1\<lparr>dialogue := Some d\<rparr>, [put, post])
              | None \<Rightarrow> (s1, [put, post]))
           else (s1, [put])))"

definition resetGame :: "game \<Rightarrow> game" where
  "resetGame s = s\<lparr>gameState := Menu, gameSession := None, score := 0, distance := 0\<rparr>"

subsection \<open>Effects of the component (lines 258-277)\<close>

text \<open>
  The scoring interval exists exactly while the last render had
  \<^verbatim>\<open>gameState === 'playing' && isRunning\<close>: the effect creates it under that condition
  and its cleanup clears it whenever one of the two cells changes.
\<close>

definition intervalActive :: "game \<Rightarrow> bool" where
  "intervalActive s = (gameState s = Playing \<and> isRunning s)"

definition intervalTick :: "game \<Rightarrow> game" where
  "intervalTick s = s\<lparr>distance := distance s + 1, score := score s + 10\<rparr>"

definition autoEnd :: "collaborator \<Rightarrow> game \<Rightarrow> game \<times> effect list" where
  "autoEnd c s =
     (if distance s > 200 \<and> gameState s = Playing then endGame c s else (s, []))"

subsection \<open>Controls on screen (lines 315-459)\<close>

text \<open>
  The touchables the component renders, each with the handler bound to its
  \<^verbatim>\<open>onPress\<close>. Nothing but the loading text is rendered before initialization.
\<close>

datatype control =
    TrackButton track
  | StartRace
  | JumpArea
  | PauseButton
  | ResumeButton
  | MainMenuButton
  | RaceAgain

definition rendered :: "game \<Rightarrow> control list" where
  "rendered s =
     (if \<not> isInitialized s then []
      else case gameState s of
          Menu \<Rightarrow> map TrackButton (availableTracks s) @ [StartRace]
        | Playing \<Rightarrow> [JumpArea, PauseButton]
        | Paused \<Rightarrow> [ResumeButton, MainMenuButton]
        | GameOver \<Rightarrow> [RaceAgain, MainMenuButton])"

fun onPress :: "collaborator \<Rightarrow> control \<Rightarrow> game \<Rightarrow> game \<times> effect list" where
  "onPress c (TrackButton t) s = (s\<lparr>currentTrack := Some t\<rparr>, [])"
| "onPress c StartRace s = startGame c s"
| "onPress c JumpArea s = jumpCharacter s"
| "onPress c PauseButton s = (pauseGame s, [])"
| "onPress c ResumeButton s = (resumeGame s, [])"
| "onPress c MainMenuButton s = (resetGame s, [])"
| "onPress c RaceAgain s = startGame c s"

subsection \<open>Events\<close>

text \<open>
  An event is a press of a control, a firing of the scoring interval or the expiry of a
  jump timer. A control that is not on screen cannot be pressed, and the interval fires
  only while it exists. After each event the component renders and the automatic-end
  effect runs on the new cells.
\<close>

datatype event = Press control | Tick | JumpExpired

fun handle :: "collaborator \<Rightarrow> event \<Rightarrow> game \<Rightarrow> game \<times> effect list" where
  "handle c (Press b) s = (if b \<in> set (rendered s) then onPress c b s else (s, []))"
| "handle c Tick s = (if intervalActive s then (intervalTick s, []) else (s, []))"
| "handle c JumpExpired s = (jumpTimeout s, [])"

definition step :: "collaborator \<Rightarrow> event \<Rightarrow> game \<Rightarrow> game \<times> effect list" where
  "step c e s =
     (case handle c e s of (s1, out1) \<Rightarrow>
        (case autoEnd c s1 of (s2, out2) \<Rightarrow> (s2, out1 @ out2)))"

fun run :: "(collaborator \<times> event) list \<Rightarrow> game \<Rightarrow> game \<times> effect list" where
  "run [] s = (s, [])"
| "run (ce # es) s =
     (case step (fst ce) (snd ce) s of (s1, out1) \<Rightarrow>
        (case run es s1 of (s2, out2) \<Rightarrow> (s2, out1 @ out2)))"

text \<open>The events of one race: everything but the controls that start or leave a race.\<close>

fun inRace :: "event \<Rightarrow> bool" where
  "inRace (Press JumpArea) = True"
| "inRace (Press PauseButton) = True"
| "inRace (Press ResumeButton) = True"
| "inRace (Press _) = False"
| "inRace Tick = True"
| "inRace JumpExpired = True"

text \<open>Observations on the effects of a run.\<close>

fun isJumpTimer :: "effect \<Rightarrow> bool" where
  "isJumpTimer (SetTimeout ms) = True"
| "isJumpTimer (Fetch r) = False"

fun isReport :: "effect \<Rightarrow> bool" where
  "isReport (Fetch (UpdateSession i sc d t done)) = True"
| "isReport _ = False"

definition jumpsAccrued :: "effect list \<Rightarrow> nat" where
  "jumpsAccrued out = length (filter isJumpTimer out)"

definition reportsSent :: "effect list \<Rightarrow> nat" where
  "reportsSent out = length (filter isReport out)"

subsection \<open>The transition table of the specification\<close>

text \<open>
  This table follows the words of the specification (sections 4.1 and 4.3), not the
  source: the actions it names and, for each mode, the ones it lists as legal. It is
  compared below with what the screen lets the player do.
\<close>

datatype action =
    StartRaceAction
  | PauseAction
  | ResumeAction
  | EndAction
  | ResetAction
  | RaceAgainAction
  | JumpAction

fun specTable :: "mode \<Rightarrow> action \<Rightarrow> bool" where
  "specTable Menu StartRaceAction = True"
| "specTable Playing PauseAction = True"
| "specTable Paused ResumeAction = True"
| "specTable Playing EndAction = True"
| "specTable Paused ResetAction = True"
| "specTable GameOver ResetAction = True"
| "specTable GameOver RaceAgainAction = True"
| "specTable Playing JumpAction = True"
| "specTable _ _ = False"

text \<open>The action a control stands for; choosing a track is not an action of the table.\<close>

fun actionOf :: "control \<Rightarrow> action option" where
  "actionOf (TrackButton t) = None"
| "actionOf StartRace = Some StartRaceAction"
| "actionOf JumpArea = Some JumpAction"
| "actionOf PauseButton = Some PauseAction"
| "actionOf ResumeButton = Some ResumeAction"
| "actionOf MainMenuButton = Some ResetAction"
| "actionOf RaceAgain = Some RaceAgainAction"

text \<open>
  The handler that carries out each action: \<^verbatim>\<open>startGame\<close> for start and race again,
  \<^verbatim>\<open>pauseGame\<close>, \<^verbatim>\<open>resumeGame\<close>, \<^verbatim>\<open>endGame\<close>, \<^verbatim>\<open>resetGame\<close> and \<^verbatim>\<open>jumpCharacter\<close>.
\<close>

fun perform :: "collaborator \<Rightarrow> action \<Rightarrow> game \<Rightarrow> game \<times> effect list" where
  "perform c StartRaceAction s = startGame c s"
| "perform c PauseAction s = (pauseGame s, [])"
| "perform c ResumeAction s = (resumeGame s, [])"
| "perform c EndAction s = endGame c s"
| "perform c ResetAction s = (resetGame s, [])"
| "perform c RaceAgainAction s = startGame c s"
| "perform c JumpAction s = jumpCharacter s"

text \<open>
  Where the component lets an action be attempted. Six actions are attempted by pressing
  the touchable whose \<^verbatim>\<open>onPress\<close> is their handler: start (line 372), pause (line
  321), resume (line 389), reset (lines 392 and 416), race again (line 413) and jump
  (line 446). No touchable is bound to \<^verbatim>\<open>endGame\<close>; its only call is the one in the
  automatic-end effect (line 275).
\<close>

fun attempt :: "collaborator \<Rightarrow> action \<Rightarrow> game \<Rightarrow> game \<times> effect list" where
  "attempt c StartRaceAction s = handle c (Press StartRace) s"
| "attempt c PauseAction s = handle c (Press PauseButton) s"
| "attempt c ResumeAction s = handle c (Press ResumeButton) s"
| "attempt c EndAction s = autoEnd c s"
| "attempt c ResetAction s = handle c (Press MainMenuButton) s"
| "attempt c RaceAgainAction s = handle c (Press RaceAgain) s"
| "attempt c JumpAction s = handle c (Press JumpArea) s"

subsection \<open>Sample data\<close>

text \<open>
  A backend that answers and one that is unreachable, the menu reached through the
  initialization timeout, a race started from it, and the example run of the
  specification (three ticks, a jump, two ticks).
\<close>

definition demoSession :: game_session where
  "demoSession = \<lparr>gs_id = ''session_1'', gs_player_id = ''temp'',
     gs_track_name = ''jamaica_country'', gs_score = 0, gs_distance = 0,
     gs_character_type = ''on_foot''\<rparr>"

definition demoDialogue :: jamaican_dialogue where
  "demoDialogue = \<lparr>d_dialogue = ''Big up yuhself!'', d_translation = ''Well done!''\<rparr>"

definition online :: collaborator where
  "online = \<lparr>sessionReply = Some demoSession, putOk = True, dialogueReply = Some demoDialogue\<rparr>"

definition offline :: collaborator where
  "offline = \<lparr>sessionReply = None, putOk = False, dialogueReply = None\<rparr>"

definition ready :: game where
  "ready = initTimeout initial"

definition racing :: game where
  "racing = fst (startGame online ready)"

definition demoRun :: "(collaborator \<times> event) list" where
  "demoRun = [(online, Tick), (online, Tick), (online, Tick), (online, Press JumpArea),
              (online, Tick), (online, Tick)]"

definition finished :: game where
  "finished = fst (run (replicate 201 (online, Tick)) racing)"

text \<open>A state initialized from the backend: its player and two tracks.\<close>

definition demoPlayer :: player where
  "demoPlayer = \<lparr>p_id = ''player_7'', p_name = ''General Da Jamaican Boy'', p_high_score = 120\<rparr>"

definition kingstonTrack :: track where
  "kingstonTrack = \<lparr>t_id = ''track_002'', t_name = ''jamaica_city'',
     t_display_name = ''Kingston Streets'', t_location_type = ''city'',
     t_character_type = ''vehicle'', t_difficulty = ''medium'',
     t_background_theme = ''urban_streets''\<rparr>"

definition loaded :: game where
  "loaded = fst (initializeGame (Some demoPlayer) (Some [kingstonTrack, fallbackTrack])
                   (Some demoDialogue) initial)"

section \<open>Properties\<close>

subsection \<open>Auxiliary facts about handlers, steps and runs\<close>

lemma handle_inRace_cases:
  assumes "inRace e"
  shows "handle c e s = (s, []) \<or> handle c e s = jumpCharacter s
       \<or> handle c e s = (pauseGame s, []) \<and> gameState s = Playing
       \<or> handle c e s = (resumeGame s, []) \<and> gameState s = Paused
       \<or> handle c e s = (intervalTick s, []) \<and> gameState s = Playing
       \<or> handle c e s = (jumpTimeout s, [])"
proof (cases e)
  case (Press b)
  with assms show ?thesis
    by (cases b) (auto simp: rendered_def intervalActive_def split: mode.splits)
next
  case Tick
  then show ?thesis by (simp add: intervalActive_def)
next
  case JumpExpired
  then show ?thesis by simp
qed

lemma endGame_fst:
  "gameState (fst (endGame c s)) = GameOver \<and> score (fst (endGame c s)) = score s
     \<and> distance (fst (endGame c s)) = distance s \<and> isJumping (fst (endGame c s)) = isJumping s
     \<and> gameSession (fst (endGame c s)) = gameSession s
     \<and> isRunning (fst (endGame c s)) = False"
  by (simp add: endGame_def Let_def split: option.splits)

lemma endGame_jumps: "jumpsAccrued (snd (endGame c s)) = 0"
  by (simp add: endGame_def Let_def jumpsAccrued_def split: option.splits)

lemma endGame_reports:
  "reportsSent (snd (endGame c s)) = (if gameSession s = None then 0 else 1)"
  by (simp add: endGame_def Let_def reportsSent_def split: option.splits)

lemma jumpsAccrued_Nil: "jumpsAccrued [] = 0"
  by (simp add: jumpsAccrued_def)

lemma reportsSent_Nil: "reportsSent [] = 0"
  by (simp add: reportsSent_def)

lemma autoEnd_keeps:
  "score (fst (autoEnd c s)) = score s \<and> distance (fst (autoEnd c s)) = distance s
     \<and> isJumping (fst (autoEnd c s)) = isJumping s
     \<and> gameSession (fst (autoEnd c s)) = gameSession s
     \<and> jumpsAccrued (snd (autoEnd c s)) = 0"
  by (simp add: autoEnd_def endGame_fst endGame_jumps jumpsAccrued_Nil)

lemma step_unfold:
  "step c e s = (fst (autoEnd c (fst (handle c e s))),
                 snd (handle c e s) @ snd (autoEnd c (fst (handle c e s))))"
  by (simp add: step_def split: prod.splits)

lemma jumpsAccrued_append: "jumpsAccrued (xs @ ys) = jumpsAccrued xs + jumpsAccrued ys"
  by (simp add: jumpsAccrued_def)

lemma reportsSent_append: "reportsSent (xs @ ys) = reportsSent xs + reportsSent ys"
  by (simp add: reportsSent_def)

lemma handle_score:
  assumes "inRace e"
  shows "score (fst (handle c e s)) - 10 * distance (fst (handle c e s))
         = score s - 10 * distance s + 50 * int (jumpsAccrued (snd (handle c e s)))"
  using handle_inRace_cases [OF assms, of c s]
  by (auto simp: jumpCharacter_def pauseGame_def resumeGame_def intervalTick_def
        jumpTimeout_def jumpsAccrued_def)

lemma step_score:
  assumes "inRace e"
  shows "score (fst (step c e s)) - 10 * distance (fst (step c e s))
         = score s - 10 * distance s + 50 * int (jumpsAccrued (snd (step c e s)))"
  using handle_score [OF assms, of c s]
  by (simp add: step_unfold autoEnd_keeps jumpsAccrued_append)

lemma run_unfold:
  "run (ce # es) s = (fst (run es (fst (step (fst ce) (snd ce) s))),
      snd (step (fst ce) (snd ce) s) @ snd (run es (fst (step (fst ce) (snd ce) s))))"
  by (simp split: prod.splits)

lemma run_score:
  "list_all (\<lambda>ce. inRace (snd ce)) es \<Longrightarrow>
   score (fst (run es s)) - 10 * distance (fst (run es s))
     = score s - 10 * distance s + 50 * int (jumpsAccrued (snd (run es s)))"
proof (induction es arbitrary: s)
  case Nil
  then show ?case by (simp add: jumpsAccrued_def)
next
  case (Cons ce es)
  from Cons.prems have r: "inRace (snd ce)" and rest: "list_all (\<lambda>ce. inRace (snd ce)) es"
    by simp_all
  show ?case
    using Cons.IH [OF rest, of "fst (step (fst ce) (snd ce) s)"]
          step_score [OF r, of "fst ce" s]
    by (simp only: run_unfold fst_conv snd_conv jumpsAccrued_append) simp
qed


lemma handle_session:
  assumes "inRace e"
  shows "gameSession (fst (handle c e s)) = gameSession s"
  using handle_inRace_cases [OF assms, of c s]
  by (auto simp: jumpCharacter_def pauseGame_def resumeGame_def intervalTick_def jumpTimeout_def)

lemma handle_reports:
  assumes "inRace e"
  shows "reportsSent (snd (handle c e s)) = 0"
  using handle_inRace_cases [OF assms, of c s]
  by (auto simp: jumpCharacter_def reportsSent_def)

lemma handle_over:
  assumes "inRace e" and "gameState s = GameOver"
  shows "gameState (fst (handle c e s)) = GameOver \<and> distance (fst (handle c e s)) = distance s
         \<and> snd (handle c e s) = []"
  using handle_inRace_cases [OF assms(1), of c s] assms(2)
  by (auto simp: jumpCharacter_def jumpTimeout_def)

lemma step_over:
  assumes "inRace e" and "gameState s = GameOver"
  shows "gameState (fst (step c e s)) = GameOver \<and> distance (fst (step c e s)) = distance s
         \<and> gameSession (fst (step c e s)) = gameSession s \<and> snd (step c e s) = []"
  using handle_over [OF assms, of c] handle_session [OF assms(1), of c s]
  by (simp add: step_unfold autoEnd_def)

lemma handle_racing:
  assumes "inRace e" and "gameState s = Playing \<or> gameState s = Paused" and "distance s \<le> 200"
  shows "(gameState (fst (handle c e s)) = Playing \<and> distance (fst (handle c e s)) \<le> 201)
         \<or> (gameState (fst (handle c e s)) = Paused \<and> distance (fst (handle c e s)) \<le> 200)"
  using handle_inRace_cases [OF assms(1), of c s] assms(2,3)
  by (auto simp: jumpCharacter_def pauseGame_def resumeGame_def intervalTick_def jumpTimeout_def)

lemma autoEnd_racing:
  assumes "(gameState s = Playing \<and> distance s \<le> 201) \<or> (gameState s = Paused \<and> distance s \<le> 200)"
  shows "(gameState (fst (autoEnd c s)) = GameOver \<and> distance (fst (autoEnd c s)) = 201
            \<and> reportsSent (snd (autoEnd c s)) = (if gameSession s = None then 0 else 1))
         \<or> ((gameState (fst (autoEnd c s)) = Playing \<or> gameState (fst (autoEnd c s)) = Paused)
            \<and> distance (fst (autoEnd c s)) \<le> 200 \<and> reportsSent (snd (autoEnd c s)) = 0)"
proof (cases "distance s > 200 \<and> gameState s = Playing")
  case True
  with assms have "distance s = 201" by auto
  with True show ?thesis
    by (simp add: autoEnd_def endGame_fst endGame_reports)
next
  case False
  with assms have "distance s \<le> 200" by auto
  with assms show ?thesis
    by (auto simp: autoEnd_def reportsSent_Nil)
qed

lemma step_racing:
  assumes "inRace e" and "gameState s = Playing \<or> gameState s = Paused" and "distance s \<le> 200"
  shows "gameSession (fst (step c e s)) = gameSession s \<and>
         ((gameState (fst (step c e s)) = GameOver \<and> distance (fst (step c e s)) = 201
            \<and> reportsSent (snd (step c e s)) = (if gameSession s = None then 0 else 1))
         \<or> ((gameState (fst (step c e s)) = Playing \<or> gameState (fst (step c e s)) = Paused)
            \<and> distance (fst (step c e s)) \<le> 200 \<and> reportsSent (snd (step c e s)) = 0))"
proof -
  let ?h = "fst (handle c e s)"
  have pre: "(gameState ?h = Playing \<and> distance ?h \<le> 201)
             \<or> (gameState ?h = Paused \<and> distance ?h \<le> 200)"
    by (rule handle_racing [OF assms])
  have sess: "gameSession ?h = gameSession s"
    by (rule handle_session [OF assms(1)])
  have rep: "reportsSent (snd (handle c e s)) = 0"
    by (rule handle_reports [OF assms(1)])
  from autoEnd_racing [OF pre, of c] sess rep show ?thesis
    by (simp add: step_unfold reportsSent_append autoEnd_keeps)
qed

lemma run_over:
  "list_all (\<lambda>ce. inRace (snd ce)) es \<Longrightarrow> gameState s = GameOver \<Longrightarrow>
   gameState (fst (run es s)) = GameOver \<and> distance (fst (run es s)) = distance s
     \<and> snd (run es s) = []"
proof (induction es arbitrary: s)
  case Nil
  then show ?case by simp
next
  case (Cons ce es)
  from Cons.prems have r: "inRace (snd ce)" and rest: "list_all (\<lambda>ce. inRace (snd ce)) es"
    by simp_all
  from step_over [OF r Cons.prems(2), of "fst ce"]
  have a: "gameState (fst (step (fst ce) (snd ce) s)) = GameOver"
    and b: "distance (fst (step (fst ce) (snd ce) s)) = distance s"
    and c: "snd (step (fst ce) (snd ce) s) = []"
    by simp_all
  from Cons.IH [OF rest a] b c show ?case
    by (simp only: run_unfold fst_conv snd_conv) simp
qed

lemma run_racing:
  "list_all (\<lambda>ce. inRace (snd ce)) es \<Longrightarrow> gameState s = Playing \<or> gameState s = Paused \<Longrightarrow>
   distance s \<le> 200 \<Longrightarrow>
   (gameState (fst (run es s)) = GameOver \<and> distance (fst (run es s)) = 201
      \<and> reportsSent (snd (run es s)) = (if gameSession s = None then 0 else 1))
   \<or> ((gameState (fst (run es s)) = Playing \<or> gameState (fst (run es s)) = Paused)
      \<and> distance (fst (run es s)) \<le> 200 \<and> reportsSent (snd (run es s)) = 0)"
proof (induction es arbitrary: s)
  case Nil
  then show ?case by (simp add: reportsSent_Nil)
next
  case (Cons ce es)
  let ?s1 = "fst (step (fst ce) (snd ce) s)"
  let ?o1 = "snd (step (fst ce) (snd ce) s)"
  from Cons.prems have r: "inRace (snd ce)" and rest: "list_all (\<lambda>ce. inRace (snd ce)) es"
    by simp_all
  have u: "run (ce # es) s = (fst (run es ?s1), ?o1 @ snd (run es ?s1))"
    by (rule run_unfold)
  from step_racing [OF r Cons.prems(2,3), of "fst ce"]
  have sess: "gameSession ?s1 = gameSession s"
    and alt: "(gameState ?s1 = GameOver \<and> distance ?s1 = 201
                \<and> reportsSent ?o1 = (if gameSession s = None then 0 else 1))
            \<or> ((gameState ?s1 = Playing \<or> gameState ?s1 = Paused)
                \<and> distance ?s1 \<le> 200 \<and> reportsSent ?o1 = 0)"
    by simp_all
  from alt show ?case
  proof
    assume over: "gameState ?s1 = GameOver \<and> distance ?s1 = 201
                \<and> reportsSent ?o1 = (if gameSession s = None then 0 else 1)"
    with run_over [OF rest, of ?s1] show ?thesis
      by (simp only: u fst_conv snd_conv) (simp add: reportsSent_append reportsSent_Nil)
  next
    assume on: "(gameState ?s1 = Playing \<or> gameState ?s1 = Paused)
                \<and> distance ?s1 \<le> 200 \<and> reportsSent ?o1 = 0"
    then have g: "gameState ?s1 = Playing \<or> gameState ?s1 = Paused" and d: "distance ?s1 \<le> 200"
      and z: "reportsSent ?o1 = 0"
      by simp_all
    from Cons.IH [OF rest g d] sess z show ?thesis
      by (simp only: u fst_conv snd_conv) (simp add: reportsSent_append)
  qed
qed

lemma ticks_before_end:
  "gameState s = Playing \<Longrightarrow> isRunning s \<Longrightarrow> distance s + int n \<le> 200 \<Longrightarrow>
   run (replicate n (c, Tick)) s
     = (s\<lparr>distance := distance s + int n, score := score s + 10 * int n\<rparr>, [])"
proof (induction n arbitrary: s)
  case 0
  then show ?case by simp
next
  case (Suc n)
  let ?s1 = "intervalTick s"
  from Suc.prems have st: "step c Tick s = (?s1, [])"
    by (simp add: step_def intervalActive_def intervalTick_def autoEnd_def)
  from Suc.prems have "gameState ?s1 = Playing" "isRunning ?s1" "distance ?s1 + int n \<le> 200"
    by (simp_all add: intervalTick_def)
  from Suc.IH [OF this] st show ?case
    by (simp add: intervalTick_def algebra_simps)
qed

subsection \<open>The sample data, evaluated\<close>

lemma ready_eq:
  "ready = \<lparr>gameState = Menu, currentPlayer = Some fallbackPlayer,
     currentTrack = Some fallbackTrack, availableTracks = [fallbackTrack],
     gameSession = None, score = 0, distance = 0, dialogue = None, isJumping = False,
     isRunning = False, isInitialized = True\<rparr>"
  by (simp add: ready_def initTimeout_def initial_def)

lemma racing_eq:
  "racing = \<lparr>gameState = Playing, currentPlayer = Some fallbackPlayer,
     currentTrack = Some fallbackTrack, availableTracks = [fallbackTrack],
     gameSession = Some demoSession, score = 0, distance = 0, dialogue = None,
     isJumping = False, isRunning = True, isInitialized = True\<rparr>"
  by (simp add: racing_def ready_eq startGame_def online_def)

lemma demoRun_result:
  "run demoRun racing = (racing\<lparr>score := 100, distance := 5, isJumping := True\<rparr>, [SetTimeout 600])"
  by (simp add: demoRun_def racing_eq step_def rendered_def intervalActive_def intervalTick_def
      jumpCharacter_def autoEnd_def)

subsection \<open>Scoring\<close>

text \<open>
  Claim C1. Take a race begun with score 0 and distance 0 and let any events of a race
  happen in any order: ticks of the scoring interval, presses of the jump area, expiries
  of the jump timer, pause and resume. At every moment the score is ten times the
  distance plus fifty times the number of jumps accepted so far (one jump timer is
  scheduled per accepted jump). A tick of the running interval adds exactly 1 to the
  distance and 10 to the score, and an accepted jump adds 50 to the score and leaves the
  distance alone.
\<close>

theorem score_is_ticks_and_jump_bonuses:
  assumes "score s0 = 0" and "distance s0 = 0" and "list_all (\<lambda>ce. inRace (snd ce)) es"
  shows "score (fst (run es s0))
           = 10 * distance (fst (run es s0)) + 50 * int (jumpsAccrued (snd (run es s0)))
       \<and> (intervalActive s \<longrightarrow>
            handle c Tick s = (s\<lparr>distance := distance s + 1, score := score s + 10\<rparr>, []))
       \<and> (gameState s = Playing \<and> \<not> isJumping s \<longrightarrow>
            score (fst (jumpCharacter s)) = score s + 50
            \<and> distance (fst (jumpCharacter s)) = distance s)"
proof -
  from run_score [OF assms(3), of s0] assms(1,2)
  have "score (fst (run es s0))
          = 10 * distance (fst (run es s0)) + 50 * int (jumpsAccrued (snd (run es s0)))"
    by simp
  moreover have "intervalActive s \<longrightarrow>
      handle c Tick s = (s\<lparr>distance := distance s + 1, score := score s + 10\<rparr>, [])"
    by (simp add: intervalTick_def)
  moreover have "gameState s = Playing \<and> \<not> isJumping s \<longrightarrow>
      score (fst (jumpCharacter s)) = score s + 50 \<and> distance (fst (jumpCharacter s)) = distance s"
    by (simp add: jumpCharacter_def)
  ultimately show ?thesis by blast
qed

theorem score_is_ticks_and_jump_bonuses_witness:
  "score racing = 0 \<and> distance racing = 0 \<and> list_all (\<lambda>ce. inRace (snd ce)) demoRun
   \<and> intervalActive racing \<and> gameState racing = Playing \<and> \<not> isJumping racing
   \<and> score (fst (run demoRun racing)) = 100 \<and> distance (fst (run demoRun racing)) = 5
   \<and> jumpsAccrued (snd (run demoRun racing)) = 1
   \<and> handle online Tick racing = (racing\<lparr>distance := 1, score := 10\<rparr>, [])
   \<and> score (fst (jumpCharacter racing)) = 50 \<and> distance (fst (jumpCharacter racing)) = 0"
proof -
  have h1: "score racing = 0" and h2: "distance racing = 0"
    by (simp_all add: racing_eq)
  have h3: "list_all (\<lambda>ce. inRace (snd ce)) demoRun"
    by (simp add: demoRun_def)
  have h4: "intervalActive racing" "gameState racing = Playing" "\<not> isJumping racing"
    by (simp_all add: racing_eq intervalActive_def)
  from score_is_ticks_and_jump_bonuses [OF h1 h2 h3, of racing online] h1 h2 h3 h4
  show ?thesis
    by (simp add: demoRun_result jumpsAccrued_def)
qed

subsection \<open>Further facts about runs\<close>

lemma run_append:
  "run (xs @ ys) s = (fst (run ys (fst (run xs s))), snd (run xs s) @ snd (run ys (fst (run xs s))))"
  by (induction xs arbitrary: s) (simp_all split: prod.splits)

lemma replicate_201: "replicate 201 x = replicate 200 x @ [x]"
proof -
  have "(201::nat) = Suc 200" by simp
  then show ?thesis by (simp only: replicate_Suc replicate_append_same)
qed

lemma step_past_200:
  assumes "gameState s = Playing" and "isRunning s" and "distance s = 200"
  shows "step c Tick s = endGame c (intervalTick s)"
  using assms by (simp add: step_def intervalActive_def intervalTick_def autoEnd_def split: prod.splits)

lemma ticks_reach_end:
  assumes "gameState s = Playing" and "isRunning s" and "distance s = 0"
  shows "run (replicate 201 (c, Tick)) s
           = endGame c (s\<lparr>distance := 201, score := score s + 2010\<rparr>)"
proof -
  let ?s200 = "s\<lparr>distance := distance s + int 200, score := score s + 10 * int 200\<rparr>"
  from assms have le: "distance s + int 200 \<le> 200" by simp
  have r200: "run (replicate 200 (c, Tick)) s = (?s200, [])"
    by (rule ticks_before_end [OF assms(1,2) le])
  from assms have "gameState ?s200 = Playing" "isRunning ?s200" "distance ?s200 = 200"
    by simp_all
  then have "step c Tick ?s200 = endGame c (intervalTick ?s200)"
    by (rule step_past_200)
  then have "run [(c, Tick)] ?s200 = endGame c (intervalTick ?s200)"
    by (simp split: prod.splits)
  with r200 have "run (replicate 201 (c, Tick)) s = endGame c (intervalTick ?s200)"
    by (simp only: replicate_201 run_append fst_conv snd_conv) simp
  moreover from assms have "intervalTick ?s200 = s\<lparr>distance := 201, score := score s + 2010\<rparr>"
    by (simp add: intervalTick_def)
  ultimately show ?thesis by simp
qed

lemma finished_eq:
  "finished = racing\<lparr>distance := 201, score := 2010, gameState := GameOver, isRunning := False,
                      dialogue := Some demoDialogue\<rparr>"
proof -
  have "gameState racing = Playing" "isRunning racing" "distance racing = 0"
    by (simp_all add: racing_eq)
  from ticks_reach_end [OF this, of online] show ?thesis
    by (simp add: finished_def) (simp add: racing_eq endGame_def online_def)
qed

lemma autoEnd_settles: "autoEnd c' (fst (autoEnd c s)) = (fst (autoEnd c s), [])"
proof (cases "200 < distance s \<and> gameState s = Playing")
  case True
  then have "autoEnd c s = endGame c s" by (simp add: autoEnd_def)
  then show ?thesis by (simp add: autoEnd_def endGame_fst)
next
  case False
  then have e: "autoEnd k s = (s, [])" for k
    unfolding autoEnd_def by (rule if_not_P)
  show ?thesis by (simp only: e fst_conv)
qed

lemma paused_ticks:
  "gameState s = Paused \<Longrightarrow> run (replicate n (c, Tick)) s = (s, [])"
  by (induction n) (simp_all add: step_def intervalActive_def autoEnd_def)

lemma handle_keeps_isJumping:
  assumes "isJumping s" and "e \<noteq> JumpExpired"
  shows "isJumping (fst (handle c e s)) \<and> jumpsAccrued (snd (handle c e s)) = 0"
proof (cases e)
  case (Press b)
  show ?thesis
  proof (cases "b \<in> set (rendered s)")
    case True
    with Press assms(1) show ?thesis
      by (cases b)
         (simp_all add: startGame_def jumpCharacter_def pauseGame_def resumeGame_def
            resetGame_def jumpsAccrued_def Let_def split: option.splits)
  next
    case False
    with Press assms(1) show ?thesis by (simp add: jumpsAccrued_def)
  qed
next
  case Tick
  with assms(1) show ?thesis by (simp add: intervalTick_def jumpsAccrued_def)
next
  case JumpExpired
  with assms(2) show ?thesis by simp
qed

lemma step_keeps_isJumping:
  assumes "isJumping s" and "e \<noteq> JumpExpired"
  shows "isJumping (fst (step c e s)) \<and> jumpsAccrued (snd (step c e s)) = 0"
  using handle_keeps_isJumping [OF assms, of c]
  by (simp add: step_unfold autoEnd_keeps jumpsAccrued_append)

lemma run_keeps_isJumping:
  "isJumping s \<Longrightarrow> list_all (\<lambda>ce. snd ce \<noteq> JumpExpired) es \<Longrightarrow>
   isJumping (fst (run es s)) \<and> jumpsAccrued (snd (run es s)) = 0"
proof (induction es arbitrary: s)
  case Nil
  then show ?case by (simp add: jumpsAccrued_Nil)
next
  case (Cons ce es)
  from Cons.prems have e: "snd ce \<noteq> JumpExpired"
    and rest: "list_all (\<lambda>ce. snd ce \<noteq> JumpExpired) es"
    by simp_all
  from step_keeps_isJumping [OF Cons.prems(1) e, of "fst ce"]
  have j: "isJumping (fst (step (fst ce) (snd ce) s))"
    and z: "jumpsAccrued (snd (step (fst ce) (snd ce) s)) = 0"
    by simp_all
  from Cons.IH [OF j rest] z show ?case
    by (simp only: run_unfold fst_conv snd_conv jumpsAccrued_append) simp
qed

lemma rendered_in_table:
  assumes "b \<in> set (rendered s)" and "actionOf b = Some a"
  shows "specTable (gameState s) a"
proof (cases "isInitialized s")
  case False
  with assms(1) show ?thesis by (simp add: rendered_def)
next
  case True
  with assms show ?thesis
    by - (cases b; cases "gameState s"; simp add: rendered_def image_iff)
qed

lemma race_again_offline_step:
  "step offline (Press RaceAgain) finished
     = (finished, [Fetch (CreateSession ''temp'' ''jamaica_country'' ''on_foot''),
                   Fetch (UpdateSession ''session_1'' 2010 201 20 True)])"
  by (simp add: finished_eq racing_eq step_def rendered_def startGame_def offline_def
      autoEnd_def endGame_def fallbackPlayer_def fallbackTrack_def demoSession_def)

lemma no_reports: "reportsSent out = 0 \<Longrightarrow> filter isReport out = []"
  by (simp add: reportsSent_def)

lemma handle_not_over:
  assumes "inRace e" and "gameState s \<noteq> GameOver"
  shows "gameState (fst (handle c e s)) \<noteq> GameOver"
  using handle_inRace_cases [OF assms(1), of c s] assms(2)
  by (auto simp: jumpCharacter_def pauseGame_def resumeGame_def intervalTick_def jumpTimeout_def
        split: if_splits)

lemma endGame_report:
  assumes "gameSession s = Some g"
  shows "filter isReport (snd (endGame c s))
           = [Fetch (UpdateSession (gs_id g) (score s) (distance s) (distance s div 10) True)]"
  using assms by (simp add: endGame_def Let_def split: option.splits)

lemma step_report:
  assumes "inRace e" and "gameSession s = Some g" and "gameState s \<noteq> GameOver"
    and "gameState (fst (step c e s)) = GameOver"
  shows "filter isReport (snd (step c e s))
           = [Fetch (UpdateSession (gs_id g) (score (fst (step c e s)))
                (distance (fst (step c e s))) (distance (fst (step c e s)) div 10) True)]"
proof -
  let ?h = "fst (handle c e s)"
  have nh: "gameState ?h \<noteq> GameOver" by (rule handle_not_over [OF assms(1,3)])
  have sess: "gameSession ?h = Some g"
    using handle_session [OF assms(1), of c s] assms(2) by simp
  have quiet: "filter isReport (snd (handle c e s)) = []"
    by (rule no_reports [OF handle_reports [OF assms(1)]])
  have fired: "200 < distance ?h \<and> gameState ?h = Playing"
  proof (rule ccontr)
    assume "\<not> (200 < distance ?h \<and> gameState ?h = Playing)"
    then have "autoEnd c ?h = (?h, [])"
      unfolding autoEnd_def by (rule if_not_P)
    with assms(4) nh show False by (simp add: step_unfold)
  qed
  then have ae: "autoEnd c ?h = endGame c ?h" by (simp add: autoEnd_def)
  have st: "step c e s = (fst (endGame c ?h), snd (handle c e s) @ snd (endGame c ?h))"
    by (simp only: step_unfold ae)
  show ?thesis
    by (simp only: st fst_conv snd_conv filter_append quiet append_Nil
          endGame_report [OF sess] endGame_fst)
qed

lemma handle_over_score:
  assumes "inRace e" and "gameState s = GameOver"
  shows "score (fst (handle c e s)) = score s"
  using handle_inRace_cases [OF assms(1), of c s] assms(2)
  by (auto simp: jumpCharacter_def jumpTimeout_def)

lemma step_over_score:
  assumes "inRace e" and "gameState s = GameOver"
  shows "score (fst (step c e s)) = score s"
  using handle_over_score [OF assms, of c]
  by (simp add: step_unfold autoEnd_keeps)

lemma run_over_score:
  "list_all (\<lambda>ce. inRace (snd ce)) es \<Longrightarrow> gameState s = GameOver \<Longrightarrow>
   score (fst (run es s)) = score s"
proof (induction es arbitrary: s)
  case Nil
  then show ?case by simp
next
  case (Cons ce es)
  from Cons.prems have r: "inRace (snd ce)" and rest: "list_all (\<lambda>ce. inRace (snd ce)) es"
    by simp_all
  from step_over [OF r Cons.prems(2), of "fst ce"]
  have a: "gameState (fst (step (fst ce) (snd ce) s)) = GameOver" by simp
  from Cons.IH [OF rest a] step_over_score [OF r Cons.prems(2), of "fst ce"] show ?case
    by (simp only: run_unfold fst_conv)
qed

lemma run_report:
  "list_all (\<lambda>ce. inRace (snd ce)) es \<Longrightarrow> gameSession s = Some g \<Longrightarrow>
   gameState s = Playing \<or> gameState s = Paused \<Longrightarrow> distance s \<le> 200 \<Longrightarrow>
   gameState (fst (run es s)) = GameOver \<Longrightarrow>
   filter isReport (snd (run es s))
     = [Fetch (UpdateSession (gs_id g) (score (fst (run es s))) (distance (fst (run es s)))
          (distance (fst (run es s)) div 10) True)]"
proof (induction es arbitrary: s)
  case Nil
  then show ?case by auto
next
  case (Cons ce es)
  let ?s1 = "fst (step (fst ce) (snd ce) s)"
  let ?o1 = "snd (step (fst ce) (snd ce) s)"
  from Cons.prems have r: "inRace (snd ce)" and rest: "list_all (\<lambda>ce. inRace (snd ce)) es"
    by simp_all
  have u: "run (ce # es) s = (fst (run es ?s1), ?o1 @ snd (run es ?s1))"
    by (rule run_unfold)
  from Cons.prems(3) have live: "gameState s \<noteq> GameOver" by auto
  from step_racing [OF r Cons.prems(3,4), of "fst ce"] Cons.prems(2)
  have sess: "gameSession ?s1 = Some g"
    and alt: "gameState ?s1 = GameOver
            \<or> ((gameState ?s1 = Playing \<or> gameState ?s1 = Paused)
                \<and> distance ?s1 \<le> 200 \<and> reportsSent ?o1 = 0)"
    by auto
  from alt show ?case
  proof
    assume over: "gameState ?s1 = GameOver"
    from run_over [OF rest over] run_over_score [OF rest over]
    have same: "distance (fst (run es ?s1)) = distance ?s1" "score (fst (run es ?s1)) = score ?s1"
      "snd (run es ?s1) = []"
      by simp_all
    from step_report [OF r Cons.prems(2) live over] show ?thesis
      by (simp only: u fst_conv snd_conv same append_Nil2)
  next
    assume on: "(gameState ?s1 = Playing \<or> gameState ?s1 = Paused)
                \<and> distance ?s1 \<le> 200 \<and> reportsSent ?o1 = 0"
    then have g1: "gameState ?s1 = Playing \<or> gameState ?s1 = Paused" and d1: "distance ?s1 \<le> 200"
      and q: "filter isReport ?o1 = []"
      by (simp_all add: no_reports)
    from Cons.prems(5) have fin: "gameState (fst (run es ?s1)) = GameOver"
      by (simp only: u fst_conv)
    from Cons.IH [OF rest sess g1 d1 fin] show ?thesis
      by (simp only: u fst_conv snd_conv filter_append q append_Nil)
  qed
qed

subsection \<open>Mode transitions\<close>

text \<open>
  The handlers themselves carry no mode guard: run on any state, \<^verbatim>\<open>pauseGame\<close>,
  \<^verbatim>\<open>resumeGame\<close>, \<^verbatim>\<open>endGame\<close> and \<^verbatim>\<open>resetGame\<close> write their target mode. Only
  \<^verbatim>\<open>jumpCharacter\<close> checks the mode itself. What keeps an action outside the table
  from happening is therefore where the component calls the handlers.
\<close>

lemma handlers_carry_no_mode_guard:
  "gameState (pauseGame s) = Paused \<and> gameState (resumeGame s) = Playing
   \<and> gameState (fst (endGame c s)) = GameOver \<and> gameState (resetGame s) = Menu"
  by (simp add: pauseGame_def resumeGame_def resetGame_def endGame_fst)

lemma onPress_performs:
  assumes "actionOf b = Some a"
  shows "onPress c b s = perform c a s \<and> a \<noteq> EndAction"
  using assms by (cases b) auto

lemma attempt_outside_table:
  assumes "\<not> specTable (gameState s) a"
  shows "attempt c a s = (s, [])"
  using assms
  by (cases a; cases "gameState s") (simp_all add: rendered_def image_iff autoEnd_def)

lemma attempt_inside_table:
  assumes "specTable (gameState s) a" and "isInitialized s" and "a \<noteq> EndAction"
  shows "attempt c a s = perform c a s"
  using assms
  by (cases a; cases "gameState s") (simp_all add: rendered_def)

text \<open>
  Claim C2. In every state, an action that the transition table does not list for the
  current mode is a no-op when attempted: the state is returned unchanged and nothing is
  sent. This holds for all seven actions; for pause, resume, reset, start, race again
  and jump because the touchable is not on screen in that mode, and for end because the
  automatic-end effect does nothing outside Playing. In particular pause attempted in
  Menu leaves the mode Menu. The touchables are bound as the table names them: the
  handler that a press runs is the handler of the action the control stands for, no
  control stands for end, a control that is on screen always stands for an action the
  table lists for the current mode, and an action that the table lists is carried out by
  its handler once the screen is initialized.
\<close>

theorem action_outside_table_is_noop:
  "(\<not> specTable (gameState s) a \<longrightarrow> attempt c a s = (s, []))
   \<and> (gameState s = Menu \<longrightarrow> gameState (fst (attempt c PauseAction s)) = Menu)
   \<and> (actionOf b = Some a \<and> \<not> specTable (gameState s) a \<longrightarrow>
        handle c (Press b) s = (s, []))
   \<and> (actionOf b = Some a \<longrightarrow> onPress c b s = perform c a s \<and> a \<noteq> EndAction)
   \<and> (b \<in> set (rendered s) \<and> actionOf b = Some a \<longrightarrow>
        specTable (gameState s) a \<and> handle c (Press b) s = perform c a s)
   \<and> (specTable (gameState s) a \<and> isInitialized s \<and> a \<noteq> EndAction \<longrightarrow>
        attempt c a s = perform c a s)"
proof -
  have n1: "\<not> specTable (gameState s) a \<longrightarrow> attempt c a s = (s, [])"
    using attempt_outside_table [of s a c] by blast
  have n2: "gameState s = Menu \<longrightarrow> gameState (fst (attempt c PauseAction s)) = Menu"
  proof
    assume m: "gameState s = Menu"
    then have "\<not> specTable (gameState s) PauseAction" by simp
    then have "attempt c PauseAction s = (s, [])" by (rule attempt_outside_table)
    with m show "gameState (fst (attempt c PauseAction s)) = Menu" by simp
  qed
  have n3: "actionOf b = Some a \<and> \<not> specTable (gameState s) a \<longrightarrow>
        handle c (Press b) s = (s, [])"
    using rendered_in_table [of b s a] by auto
  have n4: "actionOf b = Some a \<longrightarrow> onPress c b s = perform c a s \<and> a \<noteq> EndAction"
    using onPress_performs [of b a c s] by blast
  have n5: "b \<in> set (rendered s) \<and> actionOf b = Some a \<longrightarrow>
        specTable (gameState s) a \<and> handle c (Press b) s = perform c a s"
    using rendered_in_table [of b s a] onPress_performs [of b a c s] by auto
  have n6: "specTable (gameState s) a \<and> isInitialized s \<and> a \<noteq> EndAction \<longrightarrow>
        attempt c a s = perform c a s"
    using attempt_inside_table [of s a c] by blast
  from n1 n2 n3 n4 n5 n6 show ?thesis by blast
qed

theorem action_outside_table_is_noop_witness:
  "gameState ready = Menu \<and> \<not> specTable (gameState ready) PauseAction
   \<and> attempt online PauseAction ready = (ready, [])
   \<and> gameState (fst (attempt online PauseAction ready)) = Menu
   \<and> actionOf PauseButton = Some PauseAction
   \<and> handle online (Press PauseButton) ready = (ready, [])
   \<and> onPress online PauseButton ready = (pauseGame ready, [])
   \<and> \<not> specTable (gameState ready) EndAction
   \<and> attempt online EndAction ready = (ready, [])
   \<and> \<not> specTable (gameState racing) ResetAction
   \<and> attempt online ResetAction racing = (racing, [])
   \<and> PauseButton \<in> set (rendered racing) \<and> isInitialized racing
   \<and> specTable (gameState racing) PauseAction
   \<and> handle online (Press PauseButton) racing = (pauseGame racing, [])
   \<and> attempt online PauseAction racing = (pauseGame racing, [])"
proof -
  have m: "gameState ready = Menu" "gameState racing = Playing" "isInitialized racing"
    by (simp_all add: ready_eq racing_eq)
  have h: "\<not> specTable (gameState ready) PauseAction" "\<not> specTable (gameState ready) EndAction"
    "\<not> specTable (gameState racing) ResetAction" "specTable (gameState racing) PauseAction"
    by (simp_all add: m)
  have r: "PauseButton \<in> set (rendered racing)"
    by (simp add: rendered_def m)
  have k: "actionOf PauseButton = Some PauseAction" "PauseAction \<noteq> EndAction"
    by simp_all
  note A = action_outside_table_is_noop [of ready PauseAction online PauseButton]
  note B = action_outside_table_is_noop [of ready EndAction online PauseButton]
  note C = action_outside_table_is_noop [of racing ResetAction online PauseButton]
  note D = action_outside_table_is_noop [of racing PauseAction online PauseButton]
  from A m h k have a1: "attempt online PauseAction ready = (ready, [])"
    and a2: "gameState (fst (attempt online PauseAction ready)) = Menu"
    and a3: "handle online (Press PauseButton) ready = (ready, [])"
    and a4: "onPress online PauseButton ready = perform online PauseAction ready"
    by blast+
  from B h have b1: "attempt online EndAction ready = (ready, [])" by blast
  from C h have c1: "attempt online ResetAction racing = (racing, [])" by blast
  from D m h r k have d1: "handle online (Press PauseButton) racing = perform online PauseAction racing"
    and d2: "attempt online PauseAction racing = perform online PauseAction racing"
    by blast+
  from m h r k a1 a2 a3 a4 b1 c1 d1 d2 show ?thesis by simp
qed

text \<open>
  Claim C3 says that starting a race sets score and distance to 0 and the mode to
  Playing whether or not the session request succeeds. The failing branch of
  \<^verbatim>\<open>startGame\<close> sets the mode only: the two resets sit after the request inside the
  \<^verbatim>\<open>try\<close> block. Evaluated on the state a finished race leaves (201 ticks, score 2010)
  with an unreachable backend, race-again yields Playing with score 2010 and distance
  201, and the automatic end fires again in the same step; with a backend that answers,
  the same press yields 0 and 0.
\<close>

theorem race_again_offline_keeps_counters:
  "gameState finished = GameOver \<and> score finished = 2010 \<and> distance finished = 201
   \<and> RaceAgain \<in> set (rendered finished)
   \<and> sessionReply offline = None
   \<and> gameState (fst (startGame offline finished)) = Playing
   \<and> score (fst (startGame offline finished)) = 2010
   \<and> distance (fst (startGame offline finished)) = 201
   \<and> gameState (fst (step offline (Press RaceAgain) finished)) = GameOver
   \<and> score (fst (startGame online finished)) = 0
   \<and> distance (fst (startGame online finished)) = 0"
proof -
  have "gameState (fst (step offline (Press RaceAgain) finished)) = GameOver"
    by (simp only: race_again_offline_step fst_conv) (simp add: finished_eq)
  then show ?thesis
    by (simp add: finished_eq racing_eq startGame_def offline_def online_def rendered_def)
qed

text \<open>
  Claim C4, as the specification states it: the mode becomes GameOver when the distance
  reaches 200. After 200 ticks of a fresh race the distance is 200 and the mode is still
  Playing with nothing reported; pausing and leaving for the menu from there ends the
  race with no GameOver and no report at all.
\<close>

theorem still_playing_at_200_counterexample:
  "distance (fst (run (replicate 200 (online, Tick)) racing)) = 200
   \<and> gameState (fst (run (replicate 200 (online, Tick)) racing)) = Playing
   \<and> snd (run (replicate 200 (online, Tick)) racing) = []
   \<and> gameState (fst (run (replicate 200 (online, Tick)
        @ [(online, Press PauseButton), (online, Press MainMenuButton)]) racing)) = Menu
   \<and> reportsSent (snd (run (replicate 200 (online, Tick)
        @ [(online, Press PauseButton), (online, Press MainMenuButton)]) racing)) = 0"
proof -
  have p: "gameState racing = Playing" "isRunning racing" "distance racing + int 200 \<le> 200"
    by (simp_all add: racing_eq)
  have r: "run (replicate 200 (online, Tick)) racing
             = (racing\<lparr>distance := distance racing + int 200,
                       score := score racing + 10 * int 200\<rparr>, [])"
    by (rule ticks_before_end [OF p])
  have q: "run [(online, Press PauseButton), (online, Press MainMenuButton)]
             (racing\<lparr>distance := distance racing + int 200,
                     score := score racing + 10 * int 200\<rparr>)
           = (racing\<lparr>gameState := Menu, isRunning := False, gameSession := None\<rparr>, [])"
    by (simp add: racing_eq step_def rendered_def pauseGame_def resetGame_def autoEnd_def)
  show ?thesis
    by (simp only: run_append r q fst_conv snd_conv) (simp add: racing_eq reportsSent_def)
qed

text \<open>
  Claim C4, amended. The automatic end fires when the distance exceeds 200, that is at
  201. For a race that is Playing with distance at most 200 and any events of a race
  after that: the mode is GameOver exactly when the distance has passed 200; the number
  of finalization reports sent is one if the race has ended and a session exists, zero
  otherwise; the effect run again after it fired does nothing; once the mode is GameOver
  no event of the race changes the mode or sends anything; and 201 ticks of a running
  race do reach GameOver.
\<close>

theorem auto_end_once_past_200:
  assumes "gameState s0 = Playing" and "distance s0 \<le> 200"
    and "list_all (\<lambda>ce. inRace (snd ce)) es"
  shows "(gameState (fst (run es s0)) = GameOver) = (200 < distance (fst (run es s0)))
       \<and> reportsSent (snd (run es s0))
           = (if gameState (fst (run es s0)) = GameOver \<and> gameSession s0 \<noteq> None then 1 else 0)
       \<and> (200 < distance s \<and> gameState s = Playing \<longrightarrow>
            gameState (fst (autoEnd c s)) = GameOver)
       \<and> autoEnd c' (fst (autoEnd c s)) = (fst (autoEnd c s), [])
       \<and> (gameState s = GameOver \<and> list_all (\<lambda>ce. inRace (snd ce)) es' \<longrightarrow>
            gameState (fst (run es' s)) = GameOver \<and> snd (run es' s) = [])
       \<and> (isRunning s0 \<and> distance s0 = 0 \<longrightarrow>
            gameState (fst (run (replicate 201 (c, Tick)) s0)) = GameOver)"
proof -
  have g: "gameState s0 = Playing \<or> gameState s0 = Paused" using assms(1) by simp
  from run_racing [OF assms(3) g assms(2)]
  have a: "(gameState (fst (run es s0)) = GameOver) = (200 < distance (fst (run es s0)))"
    and b: "reportsSent (snd (run es s0))
           = (if gameState (fst (run es s0)) = GameOver \<and> gameSession s0 \<noteq> None then 1 else 0)"
    by auto
  have c: "200 < distance s \<and> gameState s = Playing \<longrightarrow> gameState (fst (autoEnd c s)) = GameOver"
    by (simp add: autoEnd_def endGame_fst)
  have d: "gameState s = GameOver \<and> list_all (\<lambda>ce. inRace (snd ce)) es' \<longrightarrow>
            gameState (fst (run es' s)) = GameOver \<and> snd (run es' s) = []"
    using run_over [of es' s] by blast
  have e: "isRunning s0 \<and> distance s0 = 0 \<longrightarrow>
            gameState (fst (run (replicate 201 (c, Tick)) s0)) = GameOver"
    using ticks_reach_end [OF assms(1), of c] by (simp add: endGame_fst)
  have f: "autoEnd c' (fst (autoEnd c s)) = (fst (autoEnd c s), [])"
    by (rule autoEnd_settles)
  from a b c d e f show ?thesis by blast
qed

theorem auto_end_once_past_200_witness:
  "gameState racing = Playing \<and> distance racing \<le> 200 \<and> isRunning racing \<and> distance racing = 0
   \<and> list_all (\<lambda>ce. inRace (snd ce)) (replicate 201 (online, Tick) @ demoRun)
   \<and> gameState (fst (run (replicate 201 (online, Tick)) racing)) = GameOver
   \<and> gameState (fst (run (replicate 201 (online, Tick) @ demoRun) racing)) = GameOver
   \<and> distance (fst (run (replicate 201 (online, Tick) @ demoRun) racing)) = 201
   \<and> reportsSent (snd (run (replicate 201 (online, Tick) @ demoRun) racing)) = 1
   \<and> gameState (fst (autoEnd online (racing\<lparr>distance := 201, score := 2010\<rparr>))) = GameOver
   \<and> gameState finished = GameOver \<and> list_all (\<lambda>ce. inRace (snd ce)) demoRun
   \<and> gameState (fst (run demoRun finished)) = GameOver \<and> snd (run demoRun finished) = []"
proof -
  let ?es = "replicate 201 (online, Tick) @ demoRun"
  have h: "gameState racing = Playing" "distance racing \<le> 200" "isRunning racing"
    "distance racing = 0" "gameSession racing \<noteq> None"
    by (simp_all add: racing_eq)
  have l: "list_all (\<lambda>ce. inRace (snd ce)) demoRun"
    by (simp add: demoRun_def)
  have l': "list_all (\<lambda>ce. inRace (snd ce)) ?es"
    using l by (simp add: list_all_iff)
  have f: "gameState finished = GameOver" "distance finished = 201"
    by (simp_all add: finished_eq)
  have k: "200 < distance (racing\<lparr>distance := 201, score := 2010\<rparr>)"
     "gameState (racing\<lparr>distance := 201, score := 2010\<rparr>) = Playing"
    by (simp_all add: racing_eq)
  note T = auto_end_once_past_200 [OF h(1,2) l', of "racing\<lparr>distance := 201, score := 2010\<rparr>" online online demoRun]
  note T' = auto_end_once_past_200 [OF h(1,2) l', of finished online online demoRun]
  have e1: "gameState (fst (run (replicate 201 (online, Tick)) racing)) = GameOver"
    using T h by blast
  have e2: "gameState (fst (autoEnd online (racing\<lparr>distance := 201, score := 2010\<rparr>))) = GameOver"
    using T k by blast
  have e3: "gameState (fst (run demoRun finished)) = GameOver \<and> snd (run demoRun finished) = []"
    using T' f l by blast
  have fin: "fst (run (replicate 201 (online, Tick)) racing) = finished"
    by (simp add: finished_def)
  have e4: "gameState (fst (run ?es racing)) = GameOver"
    using e3 by (simp only: run_append fst_conv fin)
  have e5: "distance (fst (run ?es racing)) = 201"
    using run_over [OF l f(1)] f(2) by (simp only: run_append fst_conv fin)
  have e6: "reportsSent (snd (run ?es racing)) = 1"
    using T e4 h(5) by simp
  from h l l' f e1 e2 e3 e4 e5 e6 show ?thesis by blast
qed

subsection \<open>Jumping\<close>

text \<open>
  Claim C5. A jump pressed while Playing with no jump in flight sets the jump flag, adds
  exactly 50 to the score and schedules the 600 ms timer. A jump pressed in any other
  mode or while the flag is set changes nothing and schedules nothing, so a second call
  right after the first leaves one bonus and no second timer. As long as the timer has
  not expired, whatever events happen, the flag stays set and no further jump timer is
  scheduled.
\<close>

theorem jump_once_per_cooldown:
  "(gameState s = Playing \<and> \<not> isJumping s \<longrightarrow>
      jumpCharacter s = (s\<lparr>isJumping := True, score := score s + 50\<rparr>, [SetTimeout 600]))
   \<and> (gameState s \<noteq> Playing \<or> isJumping s \<longrightarrow> jumpCharacter s = (s, []))
   \<and> (gameState s = Playing \<and> \<not> isJumping s \<longrightarrow>
        jumpCharacter (fst (jumpCharacter s))
          = (s\<lparr>isJumping := True, score := score s + 50\<rparr>, []))
   \<and> (isJumping s \<and> list_all (\<lambda>ce. snd ce \<noteq> JumpExpired) es \<longrightarrow>
        isJumping (fst (run es s)) \<and> jumpsAccrued (snd (run es s)) = 0)"
proof -
  have "gameState s = Playing \<and> \<not> isJumping s \<longrightarrow>
      jumpCharacter s = (s\<lparr>isJumping := True, score := score s + 50\<rparr>, [SetTimeout 600])"
    by (simp add: jumpCharacter_def)
  moreover have "gameState s \<noteq> Playing \<or> isJumping s \<longrightarrow> jumpCharacter s = (s, [])"
    by (auto simp: jumpCharacter_def)
  moreover have "gameState s = Playing \<and> \<not> isJumping s \<longrightarrow>
      jumpCharacter (fst (jumpCharacter s)) = (s\<lparr>isJumping := True, score := score s + 50\<rparr>, [])"
    by (simp add: jumpCharacter_def)
  moreover have "isJumping s \<and> list_all (\<lambda>ce. snd ce \<noteq> JumpExpired) es \<longrightarrow>
      isJumping (fst (run es s)) \<and> jumpsAccrued (snd (run es s)) = 0"
    using run_keeps_isJumping [of s es] by blast
  ultimately show ?thesis by blast
qed

theorem jump_once_per_cooldown_witness:
  "gameState racing = Playing \<and> \<not> isJumping racing
   \<and> jumpCharacter racing = (racing\<lparr>isJumping := True, score := 50\<rparr>, [SetTimeout 600])
   \<and> jumpCharacter (fst (jumpCharacter racing)) = (racing\<lparr>isJumping := True, score := 50\<rparr>, [])
   \<and> gameState ready = Menu \<and> jumpCharacter ready = (ready, [])
   \<and> isJumping (fst (jumpCharacter racing))
   \<and> list_all (\<lambda>ce. snd ce \<noteq> JumpExpired) [(online, Tick), (online, Press JumpArea)]
   \<and> score (fst (run [(online, Tick), (online, Press JumpArea)] (fst (jumpCharacter racing)))) = 60
   \<and> jumpsAccrued (snd (run [(online, Tick), (online, Press JumpArea)] (fst (jumpCharacter racing)))) = 0"
proof -
  have h: "gameState racing = Playing" "\<not> isJumping racing" "gameState ready = Menu"
    by (simp_all add: racing_eq ready_eq)
  have sc: "score racing = 0" by (simp add: racing_eq)
  have j: "isJumping (fst (jumpCharacter racing))"
    by (simp add: jumpCharacter_def racing_eq)
  have l: "list_all (\<lambda>ce. snd ce \<noteq> JumpExpired) [(online, Tick), (online, Press JumpArea)]"
    by simp
  have r: "score (fst (run [(online, Tick), (online, Press JumpArea)] (fst (jumpCharacter racing)))) = 60"
    by (simp add: racing_eq step_def rendered_def intervalActive_def intervalTick_def
        jumpCharacter_def autoEnd_def)
  from jump_once_per_cooldown [of racing "[]"] h
  have a0: "jumpCharacter racing
              = (racing\<lparr>isJumping := True, score := score racing + 50\<rparr>, [SetTimeout 600])"
    and b0: "jumpCharacter (fst (jumpCharacter racing))
              = (racing\<lparr>isJumping := True, score := score racing + 50\<rparr>, [])"
    by blast+
  from a0 sc
  have a: "jumpCharacter racing = (racing\<lparr>isJumping := True, score := 50\<rparr>, [SetTimeout 600])"
    by simp
  from b0 sc
  have b: "jumpCharacter (fst (jumpCharacter racing)) = (racing\<lparr>isJumping := True, score := 50\<rparr>, [])"
    by simp
  from jump_once_per_cooldown [of ready "[]"] h
  have c: "jumpCharacter ready = (ready, [])" by simp
  from jump_once_per_cooldown
         [of "fst (jumpCharacter racing)" "[(online, Tick), (online, Press JumpArea)]"] j l
  have d: "jumpsAccrued (snd (run [(online, Tick), (online, Press JumpArea)]
             (fst (jumpCharacter racing)))) = 0"
    by blast
  from h j l r a b c d show ?thesis by blast
qed

subsection \<open>Ending a race\<close>

text \<open>
  Claim C6. When \<^verbatim>\<open>endGame\<close> runs on a state that holds a session, the mode becomes
  GameOver and the first request sent is the update of that session with the current
  score, the current distance, the distance divided by 10 rounded down, and completed
  set. If that request goes through, the only other request asks for the dialogue with
  context victory when the score is above 500 and defeat otherwise. The automatic end
  is this very call. Over a whole race that holds a session and has reached GameOver,
  the only report sent carries the score and the distance the race ended with.
\<close>

theorem endGame_reports_counters:
  "(gameSession s = Some g \<longrightarrow>
      gameState (fst (endGame c s)) = GameOver
      \<and> snd (endGame c s)
          = Fetch (UpdateSession (gs_id g) (score s) (distance s) (distance s div 10) True)
            # (if putOk c
               then [Fetch (GetDialogue (if 500 < score s then ''victory'' else ''defeat'')
                       (trackNameOr (currentTrack s)) (playerNameOr (currentPlayer s)))]
               else []))
   \<and> (200 < distance s \<and> gameState s = Playing \<longrightarrow> autoEnd c s = endGame c s)
   \<and> (gameSession s0 = Some g \<and> gameState s0 = Playing \<and> distance s0 \<le> 200
        \<and> list_all (\<lambda>ce. inRace (snd ce)) es \<and> gameState (fst (run es s0)) = GameOver \<longrightarrow>
      filter isReport (snd (run es s0))
        = [Fetch (UpdateSession (gs_id g) (score (fst (run es s0))) (distance (fst (run es s0)))
             (distance (fst (run es s0)) div 10) True)])"
proof -
  have a: "gameSession s = Some g \<longrightarrow>
      gameState (fst (endGame c s)) = GameOver
      \<and> snd (endGame c s)
          = Fetch (UpdateSession (gs_id g) (score s) (distance s) (distance s div 10) True)
            # (if putOk c
               then [Fetch (GetDialogue (if 500 < score s then ''victory'' else ''defeat'')
                       (trackNameOr (currentTrack s)) (playerNameOr (currentPlayer s)))]
               else [])"
    by (simp add: endGame_def Let_def split: option.splits)
  have b: "200 < distance s \<and> gameState s = Playing \<longrightarrow> autoEnd c s = endGame c s"
    by (simp add: autoEnd_def)
  have c: "gameSession s0 = Some g \<and> gameState s0 = Playing \<and> distance s0 \<le> 200
        \<and> list_all (\<lambda>ce. inRace (snd ce)) es \<and> gameState (fst (run es s0)) = GameOver \<longrightarrow>
      filter isReport (snd (run es s0))
        = [Fetch (UpdateSession (gs_id g) (score (fst (run es s0))) (distance (fst (run es s0)))
             (distance (fst (run es s0)) div 10) True)]"
    using run_report [of es s0 g] by blast
  from a b c show ?thesis by blast
qed

theorem endGame_reports_counters_witness:
  "gameSession (racing\<lparr>distance := 201, score := 2010\<rparr>) = Some demoSession
   \<and> 200 < distance (racing\<lparr>distance := 201, score := 2010\<rparr>)
   \<and> gameState (racing\<lparr>distance := 201, score := 2010\<rparr>) = Playing
   \<and> gameState (fst (endGame online (racing\<lparr>distance := 201, score := 2010\<rparr>))) = GameOver
   \<and> snd (endGame online (racing\<lparr>distance := 201, score := 2010\<rparr>))
       = [Fetch (UpdateSession ''session_1'' 2010 201 20 True),
          Fetch (GetDialogue ''victory'' ''jamaica_country'' ''General Da Jamaican Boy'')]
   \<and> autoEnd online (racing\<lparr>distance := 201, score := 2010\<rparr>)
       = endGame online (racing\<lparr>distance := 201, score := 2010\<rparr>)
   \<and> snd (endGame offline (racing\<lparr>distance := 201, score := 500\<rparr>))
       = [Fetch (UpdateSession ''session_1'' 500 201 20 True)]
   \<and> gameSession racing = Some demoSession \<and> gameState racing = Playing
   \<and> distance racing \<le> 200
   \<and> list_all (\<lambda>ce. inRace (snd ce)) (replicate 201 (online, Tick))
   \<and> gameState (fst (run (replicate 201 (online, Tick)) racing)) = GameOver
   \<and> filter isReport (snd (run (replicate 201 (online, Tick)) racing))
       = [Fetch (UpdateSession ''session_1'' 2010 201 20 True)]"
proof -
  let ?es = "replicate 201 (online, Tick)"
  have h: "gameSession (racing\<lparr>distance := 201, score := 2010\<rparr>) = Some demoSession"
    and h': "gameSession (racing\<lparr>distance := 201, score := 500\<rparr>) = Some demoSession"
    by (simp_all add: racing_eq)
  have v: "gs_id demoSession = ''session_1''" "putOk online" "\<not> putOk offline"
    "trackNameOr (currentTrack racing) = ''jamaica_country''"
    "playerNameOr (currentPlayer racing) = ''General Da Jamaican Boy''"
    "gameState racing = Playing"
    by (simp_all add: demoSession_def online_def offline_def racing_eq trackNameOr_def
        playerNameOr_def fallbackTrack_def fallbackPlayer_def)
  have r: "gameSession racing = Some demoSession" "distance racing \<le> 200"
    by (simp_all add: racing_eq)
  have l: "list_all (\<lambda>ce. inRace (snd ce)) ?es"
    by (simp add: list_all_iff)
  have fin: "fst (run ?es racing) = finished"
    by (simp add: finished_def)
  have f: "gameState finished = GameOver" "score finished = 2010" "distance finished = 201"
    by (simp_all add: finished_eq)
  note T = endGame_reports_counters
             [of "racing\<lparr>distance := 201, score := 2010\<rparr>" demoSession online racing ?es]
  note T' = endGame_reports_counters
             [of "racing\<lparr>distance := 201, score := 500\<rparr>" demoSession offline racing ?es]
  from T h v have e1:
    "gameState (fst (endGame online (racing\<lparr>distance := 201, score := 2010\<rparr>))) = GameOver
     \<and> snd (endGame online (racing\<lparr>distance := 201, score := 2010\<rparr>))
       = [Fetch (UpdateSession ''session_1'' 2010 201 20 True),
          Fetch (GetDialogue ''victory'' ''jamaica_country'' ''General Da Jamaican Boy'')]
     \<and> autoEnd online (racing\<lparr>distance := 201, score := 2010\<rparr>)
       = endGame online (racing\<lparr>distance := 201, score := 2010\<rparr>)"
    by simp
  from T' h' v have e2:
    "snd (endGame offline (racing\<lparr>distance := 201, score := 500\<rparr>))
       = [Fetch (UpdateSession ''session_1'' 500 201 20 True)]"
    by simp
  from T r v(6) l fin f have e3:
    "filter isReport (snd (run ?es racing)) = [Fetch (UpdateSession ''session_1'' 2010 201 20 True)]"
    by (simp add: v(1))
  from h v(6) r l fin f e1 e2 e3 show ?thesis by simp
qed

text \<open>
  Claim C9. When \<^verbatim>\<open>endGame\<close> runs on a state without a session, the mode becomes
  GameOver, the scoring interval no longer exists, no request is sent and the dialogue
  shown stays as it was.
\<close>

theorem endGame_without_session:
  assumes "gameSession s = None"
  shows "endGame c s = (s\<lparr>gameState := GameOver, isRunning := False\<rparr>, [])
       \<and> gameState (fst (endGame c s)) = GameOver
       \<and> \<not> intervalActive (fst (endGame c s))
       \<and> dialogue (fst (endGame c s)) = dialogue s"
  using assms by (simp add: endGame_def intervalActive_def)

theorem endGame_without_session_witness:
  "gameSession (fst (startGame offline ready)) = None
   \<and> gameState (fst (startGame offline ready)) = Playing
   \<and> endGame online (fst (startGame offline ready))
       = (ready\<lparr>gameState := GameOver, isRunning := False\<rparr>, [])
   \<and> dialogue (fst (endGame online (fst (startGame offline ready)))) = dialogue ready"
proof -
  have e: "fst (startGame offline ready) = ready\<lparr>gameState := Playing, isRunning := True\<rparr>"
    by (simp add: startGame_def offline_def ready_eq)
  have h: "gameSession (fst (startGame offline ready)) = None"
    by (simp add: e) (simp add: ready_eq)
  from endGame_without_session [OF h, of online] h e
  show ?thesis by simp
qed

subsection \<open>Pausing\<close>

text \<open>
  Claim C7. Pausing keeps score and distance, no tick changes them while the game is
  paused, resuming keeps them as well, and the first tick after resuming counts on from
  the values the counters had when the game was paused.
\<close>

theorem pause_resume_keep_counters:
  "gameState (pauseGame s) = Paused
   \<and> score (pauseGame s) = score s \<and> distance (pauseGame s) = distance s
   \<and> run (replicate n (c, Tick)) (pauseGame s) = (pauseGame s, [])
   \<and> gameState (resumeGame (pauseGame s)) = Playing
   \<and> score (resumeGame (pauseGame s)) = score s
   \<and> distance (resumeGame (pauseGame s)) = distance s
   \<and> handle c Tick (resumeGame (pauseGame s))
       = ((resumeGame (pauseGame s))\<lparr>distance := distance s + 1, score := score s + 10\<rparr>, [])"
proof -
  have p: "gameState (pauseGame s) = Paused" by (simp add: pauseGame_def)
  have "run (replicate n (c, Tick)) (pauseGame s) = (pauseGame s, [])"
    by (rule paused_ticks [OF p])
  moreover have "score (pauseGame s) = score s \<and> distance (pauseGame s) = distance s"
    by (simp add: pauseGame_def)
  moreover have "gameState (resumeGame (pauseGame s)) = Playing
      \<and> score (resumeGame (pauseGame s)) = score s
      \<and> distance (resumeGame (pauseGame s)) = distance s"
    by (simp add: pauseGame_def resumeGame_def)
  moreover have "handle c Tick (resumeGame (pauseGame s))
       = ((resumeGame (pauseGame s))\<lparr>distance := distance s + 1, score := score s + 10\<rparr>, [])"
    by (simp add: pauseGame_def resumeGame_def intervalActive_def intervalTick_def)
  ultimately show ?thesis using p by blast
qed

theorem pause_resume_keep_counters_witness:
  "score (fst (run demoRun racing)) = 100 \<and> distance (fst (run demoRun racing)) = 5
   \<and> gameState (pauseGame (fst (run demoRun racing))) = Paused
   \<and> score (pauseGame (fst (run demoRun racing))) = 100
   \<and> distance (pauseGame (fst (run demoRun racing))) = 5
   \<and> run (replicate 7 (online, Tick)) (pauseGame (fst (run demoRun racing)))
       = (pauseGame (fst (run demoRun racing)), [])
   \<and> score (resumeGame (pauseGame (fst (run demoRun racing)))) = 100
   \<and> distance (resumeGame (pauseGame (fst (run demoRun racing)))) = 5
   \<and> handle online Tick (resumeGame (pauseGame (fst (run demoRun racing))))
       = ((resumeGame (pauseGame (fst (run demoRun racing))))\<lparr>distance := 6, score := 110\<rparr>, [])"
proof -
  have v: "score (fst (run demoRun racing)) = 100" "distance (fst (run demoRun racing)) = 5"
    by (simp_all add: demoRun_result)
  from pause_resume_keep_counters [of "fst (run demoRun racing)" 7 online] v
  show ?thesis by simp
qed

subsection \<open>Initialization\<close>

text \<open>
  Claim C8. When the timeout fires before initialization has completed, and likewise
  when any of the three requests of \<^verbatim>\<open>initializeGame\<close> fails, the player becomes the
  fallback player with id temp, name General Da Jamaican Boy and high score 0, the list
  of tracks becomes the one fallback track, and the mode is left as it was, which is
  Menu at startup.
\<close>

theorem fallback_when_unreachable:
  "(\<not> isInitialized s \<longrightarrow>
      currentPlayer (initTimeout s)
        = Some \<lparr>p_id = ''temp'', p_name = ''General Da Jamaican Boy'', p_high_score = 0\<rparr>
      \<and> availableTracks (initTimeout s) = [fallbackTrack]
      \<and> gameState (initTimeout s) = gameState s
      \<and> isInitialized (initTimeout s))
   \<and> (playerReply = None \<or> tracksReply = None \<or> dlgReply = None \<longrightarrow>
      currentPlayer (fst (initializeGame playerReply tracksReply dlgReply s))
        = Some \<lparr>p_id = ''temp'', p_name = ''General Da Jamaican Boy'', p_high_score = 0\<rparr>
      \<and> availableTracks (fst (initializeGame playerReply tracksReply dlgReply s)) = [fallbackTrack]
      \<and> gameState (fst (initializeGame playerReply tracksReply dlgReply s)) = gameState s
      \<and> isInitialized (fst (initializeGame playerReply tracksReply dlgReply s)))
   \<and> gameState initial = Menu"
proof -
  have a: "\<not> isInitialized s \<longrightarrow>
      currentPlayer (initTimeout s)
        = Some \<lparr>p_id = ''temp'', p_name = ''General Da Jamaican Boy'', p_high_score = 0\<rparr>
      \<and> availableTracks (initTimeout s) = [fallbackTrack]
      \<and> gameState (initTimeout s) = gameState s
      \<and> isInitialized (initTimeout s)"
    by (simp add: initTimeout_def fallbackPlayer_def)
  have c: "currentPlayer (initializeCatch s')
        = Some \<lparr>p_id = ''temp'', p_name = ''General Da Jamaican Boy'', p_high_score = 0\<rparr>
      \<and> availableTracks (initializeCatch s') = [fallbackTrack]
      \<and> gameState (initializeCatch s') = gameState s'
      \<and> isInitialized (initializeCatch s')" for s'
    by (simp add: initializeCatch_def fallbackPlayer_def)
  have b: "playerReply = None \<or> tracksReply = None \<or> dlgReply = None \<longrightarrow>
      currentPlayer (fst (initializeGame playerReply tracksReply dlgReply s))
        = Some \<lparr>p_id = ''temp'', p_name = ''General Da Jamaican Boy'', p_high_score = 0\<rparr>
      \<and> availableTracks (fst (initializeGame playerReply tracksReply dlgReply s)) = [fallbackTrack]
      \<and> gameState (fst (initializeGame playerReply tracksReply dlgReply s)) = gameState s
      \<and> isInitialized (fst (initializeGame playerReply tracksReply dlgReply s))"
    by (cases playerReply; cases tracksReply; cases dlgReply)
       (simp_all add: initializeGame_def c)
  have m: "gameState initial = Menu" by (simp add: initial_def)
  from a b m show ?thesis by blast
qed

theorem fallback_when_unreachable_witness:
  "\<not> isInitialized initial
   \<and> currentPlayer (initTimeout initial)
       = Some \<lparr>p_id = ''temp'', p_name = ''General Da Jamaican Boy'', p_high_score = 0\<rparr>
   \<and> availableTracks (initTimeout initial) = [fallbackTrack]
   \<and> length (availableTracks (initTimeout initial)) = 1
   \<and> gameState (initTimeout initial) = Menu
   \<and> isInitialized (initTimeout initial)
   \<and> currentPlayer (fst (initializeGame (Some demoPlayer) None None initial))
       = Some \<lparr>p_id = ''temp'', p_name = ''General Da Jamaican Boy'', p_high_score = 0\<rparr>
   \<and> availableTracks (fst (initializeGame (Some demoPlayer) None None initial)) = [fallbackTrack]
   \<and> gameState (fst (initializeGame (Some demoPlayer) None None initial)) = Menu"
proof -
  have h: "\<not> isInitialized initial" by (simp add: initial_def)
  note T = fallback_when_unreachable [of initial "Some demoPlayer" None None]
  from T have m: "gameState initial = Menu" by blast
  from T h m show ?thesis by simp
qed

text \<open>
  Claim C10. When the timeout fires on a state that is already initialized it changes
  nothing; in particular the state that a successful \<^verbatim>\<open>initializeGame\<close> leaves keeps
  its player, its tracks and its selected track.
\<close>

theorem timeout_after_initialization:
  "(isInitialized s \<longrightarrow> initTimeout s = s)
   \<and> initTimeout (fst (initializeGame (Some pl) (Some tracks) (Some d) s))
       = fst (initializeGame (Some pl) (Some tracks) (Some d) s)"
  by (simp add: initTimeout_def initializeGame_def)

theorem timeout_after_initialization_witness:
  "isInitialized loaded
   \<and> initTimeout loaded = loaded
   \<and> currentPlayer (initTimeout loaded) = Some demoPlayer
   \<and> availableTracks (initTimeout loaded) = [kingstonTrack, fallbackTrack]
   \<and> currentTrack (initTimeout loaded) = Some kingstonTrack"
proof -
  have h: "isInitialized loaded"
    by (simp add: loaded_def initializeGame_def)
  have f: "currentPlayer loaded = Some demoPlayer"
    "availableTracks loaded = [kingstonTrack, fallbackTrack]"
    "currentTrack loaded = Some kingstonTrack"
    by (simp_all add: loaded_def initializeGame_def firstTrack_def)
  from timeout_after_initialization [of loaded] h have "initTimeout loaded = loaded"
    by blast
  with h f show ?thesis by simp
qed

end
